theory Spec2Isabelle
  imports Main "HOL-Library.Word"
begin

section \<open>Weak references of the Kotlin/Native runtime (Weak.cpp)\<close>

text \<open>
  The file under verification is \<^verbatim>\<open>runtime/src/main/cpp/Weak.cpp\<close>. It has two file-local
  helpers, \<^verbatim>\<open>lock\<close> and \<^verbatim>\<open>unlock\<close>, and three exported functions:
  \<^verbatim>\<open>Konan_getWeakReferenceImpl\<close>, \<^verbatim>\<open>Konan_WeakReferenceCounter_get\<close> and
  \<^verbatim>\<open>WeakReferenceCounterClear\<close>. The functions are embedded twice:
  \<^item> as functions on a store, one call running from entry to return with no other thread
    stepping in between (a call that spins forever has the value \<open>None\<close>, a failed
    \<^verbatim>\<open>RuntimeAssert\<close> the value \<open>Inl\<close>);
  \<^item> as small-step machines in which any number of threads execute the same bodies, one
    shared-memory access per step, under an arbitrary schedule.
\<close>

subsection \<open>Data model\<close>

text \<open>
  \<^verbatim>\<open>ObjHeader*\<close> and \<^verbatim>\<open>void*\<close> values are addresses; \<open>0\<close> is \<^verbatim>\<open>nullptr\<close>. The lock
  word is an \<^verbatim>\<open>int32_t\<close>; the code only compares it with 0 and 1 and stores 0 and 1.
\<close>

type_synonym objref = nat
type_synonym int32 = "32 word"

abbreviation nullptr :: objref where
  "nullptr \<equiv> 0"

text \<open>
  The two fields of a \<^verbatim>\<open>WeakReferenceCounter\<close> that the C++ code reaches by fixed offsets
  behind the object header: \<^verbatim>\<open>referredOffset = 0\<close> and \<^verbatim>\<open>lockOffset = sizeof(void*)\<close>.
\<close>

record counter =
  at_referredOffset :: objref
  at_lockOffset :: int32

text \<open>
  The fields of \<^verbatim>\<open>MetaObjHeader\<close> that Weak.cpp uses: \<^verbatim>\<open>counter_\<close> and
  \<^verbatim>\<open>associatedObject_\<close> (a name cannot end in an underscore here).
\<close>

record meta =
  meta_counter :: objref
  meta_associatedObject :: objref

text \<open>The two preprocessor switches of the file.\<close>

record build =
  KONAN_NO_THREADS :: bool
  KONAN_OBJC_INTEROP :: bool

text \<open>
  Calls into the memory manager (Memory.h) are recorded in the order in which they are
  made: the construction of an \<^verbatim>\<open>ObjHolder\<close> on a reference and \<^verbatim>\<open>RETURN_OBJ\<close>. These
  are the only places where Weak.cpp takes part in reference counting.
\<close>

datatype mm_call = Hold objref | Return objref

text \<open>
  The store. \<open>counterMemory a\<close> is the memory behind the header of the object at address
  \<open>a\<close>; \<open>metaObject a\<close> is \<^verbatim>\<open>a->meta_object()\<close>; \<open>isObjCObjectWrapper a\<close> is the value of
  \<^verbatim>\<open>IsInstance(a, theObjCObjectWrapperTypeInfo)\<close>; \<open>heapNext\<close> is the allocation frontier;
  \<open>objcRuntime\<close> is the state of the foreign runtime, which only
  \<^verbatim>\<open>makeObjCWeakReferenceImpl\<close> touches.
\<close>

record 'f runtime =
  counterMemory :: "objref \<Rightarrow> counter"
  metaObject :: "objref \<Rightarrow> meta"
  isObjCObjectWrapper :: "objref \<Rightarrow> bool"
  heapNext :: nat
  mmCalls :: "mm_call list"
  objcRuntime :: 'f

datatype failure = RuntimeAssert_Incorrect_lock_state

subsection \<open>The spin lock (lines 27-34)\<close>

text \<open>
  \<^verbatim>\<open>__sync_val_compare_and_swap(address, oldval, newval)\<close> on the content of one memory cell:
  the value returned (the content before) and the content after.
\<close>

definition sync_val_compare_and_swap :: "int32 \<Rightarrow> int32 \<Rightarrow> int32 \<Rightarrow> int32 \<times> int32" where
  "sync_val_compare_and_swap cell oldval newval =
     (cell, if cell = oldval then newval else cell)"

text \<open>
  \<^verbatim>\<open>while (__sync_val_compare_and_swap(address, 0, 1) == 1);\<close> run by one thread with no
  other thread writing the cell. The loop goes round exactly when the value read is 1, so
  on a held flag it never returns (\<open>None\<close>).
\<close>

partial_function (option) lock :: "int32 \<Rightarrow> int32 option" where
  "lock cell =
     (case sync_val_compare_and_swap cell 0 1 of
        (old, cell') \<Rightarrow> if old = 1 then lock cell' else Some cell')"

definition unlock :: "int32 \<Rightarrow> failure + int32" where
  "unlock cell =
     (case sync_val_compare_and_swap cell 1 0 of
        (old, cell') \<Rightarrow>
          if old = 1 then Inr cell' else Inl RuntimeAssert_Incorrect_lock_state)"

subsection \<open>Stores to the two fields, and the memory manager's entry points\<close>

definition store_referred :: "objref \<Rightarrow> objref \<Rightarrow> 'f runtime \<Rightarrow> 'f runtime" where
  "store_referred counter v s =
     s\<lparr>counterMemory := (counterMemory s)
          (counter := (counterMemory s counter)\<lparr>at_referredOffset := v\<rparr>)\<rparr>"

definition store_lock :: "objref \<Rightarrow> int32 \<Rightarrow> 'f runtime \<Rightarrow> 'f runtime" where
  "store_lock counter v s =
     s\<lparr>counterMemory := (counterMemory s)
          (counter := (counterMemory s counter)\<lparr>at_lockOffset := v\<rparr>)\<rparr>"

text \<open>
  Modelled from the spec: \<^verbatim>\<open>ObjHolder\<close> (Memory.h, not among the sources) is the rooting
  mechanism "that keeps a returned reference alive for the caller's current execution";
  constructing one on a reference is recorded as a call.
\<close>

definition ObjHolder :: "objref \<Rightarrow> 'f runtime \<Rightarrow> objref \<times> 'f runtime" where
  "ObjHolder obj s = (obj, s\<lparr>mmCalls := mmCalls s @ [Hold obj]\<rparr>)"

text \<open>
  Modelled from the spec: \<^verbatim>\<open>RETURN_OBJ\<close> (Memory.h, not among the sources) hands the
  reference to the caller's result slot and returns it; recorded as a call.
\<close>

definition RETURN_OBJ :: "objref \<Rightarrow> 'f runtime \<Rightarrow> objref \<times> 'f runtime" where
  "RETURN_OBJ obj s = (obj, s\<lparr>mmCalls := mmCalls s @ [Return obj]\<rparr>)"

text \<open>
  Modelled from the spec: \<^verbatim>\<open>makeWeakReferenceCounter\<close> (Weak.kt, not among the sources)
  "allocates a candidate Counter bound to the referent": a new object at a non-null
  address, its slot holding the referent and its flag free, placed in the holder passed
  to it. Allocation failure is fatal in the allocator and is not a result.
\<close>

definition makeWeakReferenceCounter :: "objref \<Rightarrow> 'f runtime \<Rightarrow> objref \<times> 'f runtime" where
  "makeWeakReferenceCounter referred_obj s =
     (let a = Suc (heapNext s) in
      ObjHolder a
        (s\<lparr>heapNext := a,
           counterMemory := (counterMemory s)
             (a := \<lparr>at_referredOffset = referred_obj, at_lockOffset = 0\<rparr>)\<rparr>))"

text \<open>
  Modelled from the spec: \<^verbatim>\<open>UpdateRefIfNull\<close> (Memory.h, not among the sources), applied
  to \<^verbatim>\<open>&meta->counter_\<close> of the given referent, is the atomic "install if currently null"
  primitive: one indivisible read-and-write of the Cache entry.
\<close>

definition UpdateRefIfNull_counter :: "objref \<Rightarrow> objref \<Rightarrow> 'f runtime \<Rightarrow> 'f runtime" where
  "UpdateRefIfNull_counter referred_obj obj s =
     (if meta_counter (metaObject s referred_obj) = nullptr
      then s\<lparr>metaObject := (metaObject s)
                (referred_obj := (metaObject s referred_obj)\<lparr>meta_counter := obj\<rparr>)\<rparr>
      else s)"

subsection \<open>Konan_getWeakReferenceImpl (lines 47-63)\<close>

text \<open>
  \<^verbatim>\<open>makeObjCWeakReferenceImpl\<close> belongs to the foreign-runtime bridge and is a parameter: a
  function of the wrapped handle and the foreign runtime's state.
\<close>

definition Konan_getWeakReferenceImpl ::
  "build \<Rightarrow> (objref \<Rightarrow> 'f \<Rightarrow> objref \<times> 'f) \<Rightarrow> 'f runtime \<Rightarrow> objref \<Rightarrow> objref \<times> 'f runtime" where
  "Konan_getWeakReferenceImpl cfg makeObjCWeakReferenceImpl s referred_obj =
     (if KONAN_OBJC_INTEROP cfg \<and> isObjCObjectWrapper s referred_obj then
        (case makeObjCWeakReferenceImpl
                (meta_associatedObject (metaObject s referred_obj)) (objcRuntime s) of
           (res, f') \<Rightarrow> (res, s\<lparr>objcRuntime := f'\<rparr>))
      else
        (let s1 =
           (if meta_counter (metaObject s referred_obj) = nullptr then
              (case makeWeakReferenceCounter referred_obj s of
                 (counter, s') \<Rightarrow> UpdateRefIfNull_counter referred_obj counter s')
            else s)
         in RETURN_OBJ (meta_counter (metaObject s1 referred_obj)) s1))"

subsection \<open>Konan_WeakReferenceCounter_get (lines 66-78)\<close>

definition Konan_WeakReferenceCounter_get ::
  "build \<Rightarrow> 'f runtime \<Rightarrow> objref \<Rightarrow> (failure + objref \<times> 'f runtime) option" where
  "Konan_WeakReferenceCounter_get cfg s counter =
     (if KONAN_NO_THREADS cfg then
        Some (Inr (RETURN_OBJ (at_referredOffset (counterMemory s counter)) s))
      else
        (case lock (at_lockOffset (counterMemory s counter)) of
           None \<Rightarrow> None
         | Some l1 \<Rightarrow>
             (let s1 = store_lock counter l1 s in
              case ObjHolder (at_referredOffset (counterMemory s1 counter)) s1 of
                (holder, s2) \<Rightarrow>
                  (case unlock (at_lockOffset (counterMemory s2 counter)) of
                     Inl e \<Rightarrow> Some (Inl e)
                   | Inr l2 \<Rightarrow> Some (Inr (RETURN_OBJ holder (store_lock counter l2 s2)))))))"

subsection \<open>WeakReferenceCounterClear (lines 80-92)\<close>

definition WeakReferenceCounterClear ::
  "build \<Rightarrow> 'f runtime \<Rightarrow> objref \<Rightarrow> (failure + 'f runtime) option" where
  "WeakReferenceCounterClear cfg s counter =
     (if KONAN_NO_THREADS cfg then
        Some (Inr (store_referred counter nullptr s))
      else
        (case lock (at_lockOffset (counterMemory s counter)) of
           None \<Rightarrow> None
         | Some l1 \<Rightarrow>
             (let s1 = store_lock counter l1 s;
                  s2 = store_referred counter nullptr s1
              in case unlock (at_lockOffset (counterMemory s2 counter)) of
                   Inl e \<Rightarrow> Some (Inl e)
                 | Inr l2 \<Rightarrow> Some (Inr (store_lock counter l2 s2)))))"

text \<open>Running a second call on the state the first one returned.\<close>

definition and_then ::
  "(failure + 'a) option \<Rightarrow> ('a \<Rightarrow> (failure + 'b) option) \<Rightarrow> (failure + 'b) option" where
  "and_then r k =
     (case r of None \<Rightarrow> None | Some (Inl e) \<Rightarrow> Some (Inl e) | Some (Inr x) \<Rightarrow> k x)"

section \<open>Threads on one Counter\<close>

text \<open>
  Any number of threads call \<^verbatim>\<open>Konan_WeakReferenceCounter_get\<close> and
  \<^verbatim>\<open>WeakReferenceCounterClear\<close> (thread build) on the same Counter. A thread's position is
  the statement it executes next, with the values it holds in locals. One step of the
  machine is one access of one thread to the Counter's memory; a schedule is the list of
  the threads that step, each with the function it calls if it is idle.

  The compare-and-swap is one step. The load \<^verbatim>\<open>*referredAddress\<close> and the store
  \<^verbatim>\<open>*referredAddress = nullptr\<close> are plain accesses, which the language does not make
  indivisible: each is two steps, one per half of the pointer, so that a load that overlaps
  a store can produce a value that was never stored.

  The positions, by source line: \<open>Get_lock\<close> is the loop of \<^verbatim>\<open>lock\<close> called at line 73;
  \<open>Get_load_lo\<close> and \<open>Get_load_hi\<close> are the load of line 74 into the holder; \<open>Get_unlock\<close>
  is line 75; \<open>Get_returned\<close> is the return of line 76. \<open>Clear_lock\<close> is line 88;
  \<open>Clear_store_lo\<close> and \<open>Clear_store_hi\<close> are the store of line 89; \<open>Clear_unlock\<close> is line
  90; \<open>Clear_returned\<close> is the return. A failed \<^verbatim>\<open>RuntimeAssert\<close> (line 33) sets \<open>aborted\<close>,
  after which no thread steps.
\<close>

datatype call = Materialize | Invalidate

datatype pc =
    Idle
  | Get_lock
  | Get_load_lo
  | Get_load_hi nat
  | Get_unlock objref
  | Get_returned objref
  | Clear_lock
  | Clear_store_lo
  | Clear_store_hi
  | Clear_unlock
  | Clear_returned

record machine =
  shared :: counter
  pcs :: "nat \<Rightarrow> pc"
  aborted :: bool

definition lo_half :: "objref \<Rightarrow> nat" where
  "lo_half p = p mod 2 ^ 32"

definition hi_half :: "objref \<Rightarrow> nat" where
  "hi_half p = p div 2 ^ 32"

definition join_halves :: "nat \<Rightarrow> nat \<Rightarrow> objref" where
  "join_halves lo hi = hi * 2 ^ 32 + lo"

definition goto :: "nat \<Rightarrow> pc \<Rightarrow> machine \<Rightarrow> machine" where
  "goto t p m = m\<lparr>pcs := (pcs m)(t := p)\<rparr>"

definition set_lock :: "int32 \<Rightarrow> machine \<Rightarrow> machine" where
  "set_lock l m = m\<lparr>shared := (shared m)\<lparr>at_lockOffset := l\<rparr>\<rparr>"

definition set_referred :: "objref \<Rightarrow> machine \<Rightarrow> machine" where
  "set_referred v m = m\<lparr>shared := (shared m)\<lparr>at_referredOffset := v\<rparr>\<rparr>"

text \<open>One round of the loop in \<^verbatim>\<open>lock\<close>: the thread stays where it is when it read 1.\<close>

definition lock_step :: "nat \<Rightarrow> pc \<Rightarrow> pc \<Rightarrow> machine \<Rightarrow> machine" where
  "lock_step t again next m =
     (case sync_val_compare_and_swap (at_lockOffset (shared m)) 0 1 of
        (old, cell') \<Rightarrow> goto t (if old = 1 then again else next) (set_lock cell' m))"

text \<open>\<^verbatim>\<open>unlock\<close>: a failed \<^verbatim>\<open>RuntimeAssert\<close> aborts the process.\<close>

definition unlock_step :: "nat \<Rightarrow> pc \<Rightarrow> machine \<Rightarrow> machine" where
  "unlock_step t next m =
     (case sync_val_compare_and_swap (at_lockOffset (shared m)) 1 0 of
        (old, cell') \<Rightarrow>
          if old = 1 then goto t next (set_lock cell' m)
          else (set_lock cell' m)\<lparr>aborted := True\<rparr>)"

definition step :: "machine \<Rightarrow> nat \<times> call \<Rightarrow> machine" where
  "step m e =
     (case e of (t, c) \<Rightarrow>
        if aborted m then m
        else
          (case pcs m t of
             Idle \<Rightarrow> goto t (case c of Materialize \<Rightarrow> Get_lock | Invalidate \<Rightarrow> Clear_lock) m
           | Get_lock \<Rightarrow> lock_step t Get_lock Get_load_lo m
           | Get_load_lo \<Rightarrow> goto t (Get_load_hi (lo_half (at_referredOffset (shared m)))) m
           | Get_load_hi lo \<Rightarrow>
               goto t (Get_unlock (join_halves lo (hi_half (at_referredOffset (shared m))))) m
           | Get_unlock holder \<Rightarrow> unlock_step t (Get_returned holder) m
           | Get_returned v \<Rightarrow> goto t Idle m
           | Clear_lock \<Rightarrow> lock_step t Clear_lock Clear_store_lo m
           | Clear_store_lo \<Rightarrow>
               goto t Clear_store_hi
                 (set_referred
                    (join_halves (lo_half nullptr) (hi_half (at_referredOffset (shared m)))) m)
           | Clear_store_hi \<Rightarrow>
               goto t Clear_unlock
                 (set_referred
                    (join_halves (lo_half (at_referredOffset (shared m))) (hi_half nullptr)) m)
           | Clear_unlock \<Rightarrow> unlock_step t Clear_returned m
           | Clear_returned \<Rightarrow> goto t Idle m))"

definition run :: "machine \<Rightarrow> (nat \<times> call) list \<Rightarrow> machine" where
  "run m sched = foldl step m sched"

text \<open>
  A Counter as \<^verbatim>\<open>makeWeakReferenceCounter\<close> leaves it, its slot holding the referent and its
  flag free, and no thread inside a call.
\<close>

definition init :: "objref \<Rightarrow> machine" where
  "init r =
     \<lparr>shared = \<lparr>at_referredOffset = r, at_lockOffset = 0\<rparr>, pcs = (\<lambda>t. Idle), aborted = False\<rparr>"

text \<open>Between a successful \<^verbatim>\<open>lock\<close> and the \<^verbatim>\<open>unlock\<close> that follows it.\<close>

fun in_critical_section :: "pc \<Rightarrow> bool" where
  "in_critical_section Get_load_lo = True"
| "in_critical_section (Get_load_hi lo) = True"
| "in_critical_section (Get_unlock holder) = True"
| "in_critical_section Clear_store_lo = True"
| "in_critical_section Clear_store_hi = True"
| "in_critical_section Clear_unlock = True"
| "in_critical_section p = False"

text \<open>Inside a call of \<^verbatim>\<open>Konan_WeakReferenceCounter_get\<close> that has not yet returned to its caller's next call.\<close>

fun materializing :: "pc \<Rightarrow> bool" where
  "materializing Get_lock = True"
| "materializing Get_load_lo = True"
| "materializing (Get_load_hi lo) = True"
| "materializing (Get_unlock holder) = True"
| "materializing (Get_returned v) = True"
| "materializing p = False"

section \<open>Threads acquiring weak references\<close>

text \<open>
  Any number of threads call \<^verbatim>\<open>Konan_getWeakReferenceImpl\<close>, each on a referent of its
  choice. One step is one statement of the body: the test of \<^verbatim>\<open>meta->counter_\<close> (line 56),
  the allocation (line 59), \<^verbatim>\<open>UpdateRefIfNull\<close> (line 60), the read of \<^verbatim>\<open>meta->counter_\<close>
  for the result (line 62). The foreign branch (lines 51-53) is one step of its own.
\<close>

datatype apc =
    Acq_idle
  | Acq_check objref
  | Acq_make objref
  | Acq_install objref objref
  | Acq_read objref
  | Acq_returned objref objref

record 'f amachine =
  heap :: "'f runtime"
  apcs :: "nat \<Rightarrow> apc"

definition agoto :: "nat \<Rightarrow> apc \<Rightarrow> 'f amachine \<Rightarrow> 'f amachine" where
  "agoto t p m = m\<lparr>apcs := (apcs m)(t := p)\<rparr>"

definition astep ::
  "build \<Rightarrow> (objref \<Rightarrow> 'f \<Rightarrow> objref \<times> 'f) \<Rightarrow> 'f amachine \<Rightarrow> nat \<times> objref \<Rightarrow> 'f amachine" where
  "astep cfg makeObjCWeakReferenceImpl m e =
     (case e of (t, arg) \<Rightarrow>
        (case apcs m t of
           Acq_idle \<Rightarrow>
             if KONAN_OBJC_INTEROP cfg \<and> isObjCObjectWrapper (heap m) arg then
               (case makeObjCWeakReferenceImpl
                       (meta_associatedObject (metaObject (heap m) arg))
                       (objcRuntime (heap m)) of
                  (res, f') \<Rightarrow>
                    agoto t (Acq_returned arg res) (m\<lparr>heap := (heap m)\<lparr>objcRuntime := f'\<rparr>\<rparr>))
             else agoto t (Acq_check arg) m
         | Acq_check referred_obj \<Rightarrow>
             agoto t
               (if meta_counter (metaObject (heap m) referred_obj) = nullptr
                then Acq_make referred_obj else Acq_read referred_obj) m
         | Acq_make referred_obj \<Rightarrow>
             (case makeWeakReferenceCounter referred_obj (heap m) of
                (counter, h') \<Rightarrow> agoto t (Acq_install referred_obj counter) (m\<lparr>heap := h'\<rparr>))
         | Acq_install referred_obj counter \<Rightarrow>
             agoto t (Acq_read referred_obj)
               (m\<lparr>heap := UpdateRefIfNull_counter referred_obj counter (heap m)\<rparr>)
         | Acq_read referred_obj \<Rightarrow>
             (case RETURN_OBJ (meta_counter (metaObject (heap m) referred_obj)) (heap m) of
                (res, h') \<Rightarrow> agoto t (Acq_returned referred_obj res) (m\<lparr>heap := h'\<rparr>))
         | Acq_returned referred_obj res \<Rightarrow> agoto t Acq_idle m))"

definition arun ::
  "build \<Rightarrow> (objref \<Rightarrow> 'f \<Rightarrow> objref \<times> 'f) \<Rightarrow> 'f amachine \<Rightarrow> (nat \<times> objref) list
     \<Rightarrow> 'f amachine" where
  "arun cfg makeObjCWeakReferenceImpl m sched =
     foldl (astep cfg makeObjCWeakReferenceImpl) m sched"

definition ainit :: "'f runtime \<Rightarrow> 'f amachine" where
  "ainit h = \<lparr>heap = h, apcs = (\<lambda>t. Acq_idle)\<rparr>"

text \<open>The Cache entry of a referent: \<^verbatim>\<open>referred->meta_object()->counter_\<close>.\<close>

definition cache :: "'f amachine \<Rightarrow> objref \<Rightarrow> objref" where
  "cache m r = meta_counter (metaObject (heap m) r)"

section \<open>Invariants of the two machines\<close>

text \<open>The threads inside a critical section of the Counter.\<close>

definition holders :: "machine \<Rightarrow> nat set" where
  "holders m = {t. in_critical_section (pcs m t)}"

text \<open>The flag is 1 exactly while one thread is inside, and nobody has aborted.\<close>

definition lock_inv :: "machine \<Rightarrow> bool" where
  "lock_inv m \<longleftrightarrow>
     \<not> aborted m \<and>
     ((at_lockOffset (shared m) = 0 \<and> holders m = {}) \<or>
      (at_lockOffset (shared m) = 1 \<and> (\<exists>t. holders m = {t})))"

text \<open>
  What a thread at a given position knows about the slot \<open>p\<close> of a Counter created for the
  referent \<open>r\<close>, and about the values it holds.
\<close>

fun local_ok :: "objref \<Rightarrow> objref \<Rightarrow> pc \<Rightarrow> bool" where
  "local_ok r p Get_load_lo = (p = r \<or> p = nullptr)"
| "local_ok r p (Get_load_hi lo) = (lo = lo_half p \<and> (p = r \<or> p = nullptr))"
| "local_ok r p (Get_unlock holder) = (holder = p \<and> (p = r \<or> p = nullptr))"
| "local_ok r p (Get_returned v) = (v = r \<or> v = nullptr)"
| "local_ok r p Clear_store_lo = (p = r \<or> p = nullptr)"
| "local_ok r p Clear_store_hi = (p = join_halves 0 (hi_half r) \<or> p = nullptr)"
| "local_ok r p Clear_unlock = (p = nullptr)"
| "local_ok r p Clear_returned = (p = nullptr)"
| "local_ok r p q = True"

definition slot_inv :: "objref \<Rightarrow> machine \<Rightarrow> bool" where
  "slot_inv r m \<longleftrightarrow>
     (\<forall>t. local_ok r (at_referredOffset (shared m)) (pcs m t)) \<and>
     (holders m = {} \<longrightarrow>
        at_referredOffset (shared m) = r \<or> at_referredOffset (shared m) = nullptr)"

text \<open>A thread that holds no part of a non-null reference.\<close>

fun carries_null :: "pc \<Rightarrow> bool" where
  "carries_null (Get_load_hi lo) = (lo = 0)"
| "carries_null (Get_unlock holder) = (holder = nullptr)"
| "carries_null (Get_returned v) = (v = nullptr)"
| "carries_null p = True"

text \<open>
  What a thread at a given position of the acquisition knows about the Cache entry \<open>c\<close> of
  the referent \<open>r\<close>.
\<close>

fun alocal_ok :: "objref \<Rightarrow> objref \<Rightarrow> apc \<Rightarrow> bool" where
  "alocal_ok r c (Acq_install referred_obj counter) = (counter \<noteq> nullptr)"
| "alocal_ok r c (Acq_read referred_obj) = (referred_obj = r \<longrightarrow> c \<noteq> nullptr)"
| "alocal_ok r c (Acq_returned referred_obj res) =
     (referred_obj = r \<longrightarrow> res = c \<and> c \<noteq> nullptr)"
| "alocal_ok r c p = True"

definition cache_inv :: "build \<Rightarrow> objref \<Rightarrow> 'f amachine \<Rightarrow> bool" where
  "cache_inv cfg r m \<longleftrightarrow>
     \<not> (KONAN_OBJC_INTEROP cfg \<and> isObjCObjectWrapper (heap m) r) \<and>
     (\<forall>t. alocal_ok r (cache m r) (apcs m t))"

section \<open>Concrete inputs\<close>

definition locked_build :: build where
  "locked_build = \<lparr>KONAN_NO_THREADS = False, KONAN_OBJC_INTEROP = True\<rparr>"

definition plain_build :: build where
  "plain_build = \<lparr>KONAN_NO_THREADS = True, KONAN_OBJC_INTEROP = False\<rparr>"

text \<open>
  A store in which every Counter's slot holds the object 7 with a free flag, no referent
  has a Counter yet, and the object 2 wraps the foreign handle 9.
\<close>

definition example_runtime :: "unit runtime" where
  "example_runtime =
     \<lparr>counterMemory = (\<lambda>a. \<lparr>at_referredOffset = 7, at_lockOffset = 0\<rparr>),
      metaObject = (\<lambda>a. \<lparr>meta_counter = nullptr, meta_associatedObject = 9\<rparr>),
      isObjCObjectWrapper = (\<lambda>a. a = 2),
      heapNext = 10,
      mmCalls = [],
      objcRuntime = ()\<rparr>"

definition example_makeObjC :: "objref \<Rightarrow> unit \<Rightarrow> objref \<times> unit" where
  "example_makeObjC handle f = (handle + 100, f)"

section \<open>Properties of single calls\<close>

subsection \<open>The spin lock\<close>

lemma lock_free: "lock 0 = Some 1"
  by (subst lock.simps) (simp add: sync_val_compare_and_swap_def)

lemma lock_returns_not_held:
  assumes "lock cell = Some y"
  shows "cell \<noteq> 1"
  by (rule lock.raw_induct[where P = "\<lambda>x y. x \<noteq> 1", OF _ assms])
     (auto simp: sync_val_compare_and_swap_def split: if_splits)

lemma lock_held: "lock 1 = None"
  using lock_returns_not_held[of 1] by (cases "lock 1") auto

lemma lock_other: "cell \<noteq> 0 \<Longrightarrow> cell \<noteq> 1 \<Longrightarrow> lock cell = Some cell"
  by (subst lock.simps) (simp add: sync_val_compare_and_swap_def)

lemma unlock_held: "unlock 1 = Inr 0"
  by (simp add: unlock_def sync_val_compare_and_swap_def)

lemma unlock_not_held: "cell \<noteq> 1 \<Longrightarrow> unlock cell = Inl RuntimeAssert_Incorrect_lock_state"
  by (simp add: unlock_def sync_val_compare_and_swap_def)

subsection \<open>Single calls of clear and get\<close>

lemma counter_lock_same:
  "at_lockOffset r = l \<Longrightarrow> r\<lparr>at_lockOffset := l\<rparr> = r"
  by (cases r) auto

lemma counter_lock_restore:
  "at_lockOffset r = l \<Longrightarrow>
   r\<lparr>at_referredOffset := v, at_lockOffset := l\<rparr> = r\<lparr>at_referredOffset := v\<rparr>"
  by (cases r) auto

lemma clear_locked:
  "\<not> KONAN_NO_THREADS cfg \<Longrightarrow>
   WeakReferenceCounterClear cfg s c =
     (if at_lockOffset (counterMemory s c) = 0 then Some (Inr (store_referred c nullptr s))
      else if at_lockOffset (counterMemory s c) = 1 then None
      else Some (Inl RuntimeAssert_Incorrect_lock_state))"
  by (simp add: WeakReferenceCounterClear_def lock_free lock_held lock_other Let_def
      store_lock_def store_referred_def unlock_held unlock_not_held counter_lock_restore)

lemma clear_plain:
  "KONAN_NO_THREADS cfg \<Longrightarrow>
   WeakReferenceCounterClear cfg s c = Some (Inr (store_referred c nullptr s))"
  by (simp add: WeakReferenceCounterClear_def)

lemma get_locked:
  "\<not> KONAN_NO_THREADS cfg \<Longrightarrow>
   Konan_WeakReferenceCounter_get cfg s c =
     (if at_lockOffset (counterMemory s c) = 0 then
        Some (Inr (at_referredOffset (counterMemory s c),
                   s\<lparr>mmCalls := mmCalls s @ [Hold (at_referredOffset (counterMemory s c)),
                                               Return (at_referredOffset (counterMemory s c))]\<rparr>))
      else if at_lockOffset (counterMemory s c) = 1 then None
      else Some (Inl RuntimeAssert_Incorrect_lock_state))"
  by (simp add: Konan_WeakReferenceCounter_get_def lock_free lock_held lock_other Let_def
      store_lock_def ObjHolder_def RETURN_OBJ_def unlock_held unlock_not_held counter_lock_same)

lemma get_plain:
  "KONAN_NO_THREADS cfg \<Longrightarrow>
   Konan_WeakReferenceCounter_get cfg s c =
     Some (Inr (at_referredOffset (counterMemory s c),
                s\<lparr>mmCalls := mmCalls s @ [Return (at_referredOffset (counterMemory s c))]\<rparr>))"
  by (simp add: Konan_WeakReferenceCounter_get_def RETURN_OBJ_def)

lemma store_referred_twice:
  "store_referred c v (store_referred c v s) = store_referred c v s"
  by (simp add: store_referred_def)

lemma lock_after_store_referred:
  "at_lockOffset (counterMemory (store_referred c v s) a) = at_lockOffset (counterMemory s a)"
  by (simp add: store_referred_def)

text \<open>
  Claim C3 (clear is idempotent). A second \<^verbatim>\<open>WeakReferenceCounterClear\<close> run on the outcome of
  a first one gives the outcome of the first one, whatever the Counter's state and the build
  (a first call that spins or aborts has no second call). When the flag is free, or in the
  build without threads, the first call returns the store with the slot nulled, and the
  second call returns that same store: it writes null over null.
\<close>

theorem clear_idempotent:
  "and_then (WeakReferenceCounterClear cfg s c) (\<lambda>s1. WeakReferenceCounterClear cfg s1 c) =
     WeakReferenceCounterClear cfg s c \<and>
   (KONAN_NO_THREADS cfg \<or> at_lockOffset (counterMemory s c) = 0 \<longrightarrow>
      WeakReferenceCounterClear cfg s c = Some (Inr (store_referred c nullptr s)) \<and>
      WeakReferenceCounterClear cfg (store_referred c nullptr s) c =
        Some (Inr (store_referred c nullptr s)))"
proof (cases "KONAN_NO_THREADS cfg")
  case True
  then show ?thesis
    by (simp add: clear_plain and_then_def store_referred_twice)
next
  case False
  then show ?thesis
    by (simp add: clear_locked and_then_def store_referred_twice lock_after_store_referred)
qed

theorem clear_idempotent_witness:
  "WeakReferenceCounterClear locked_build example_runtime 3 =
     Some (Inr (store_referred 3 nullptr example_runtime)) \<and>
   and_then (WeakReferenceCounterClear locked_build example_runtime 3)
     (\<lambda>s1. WeakReferenceCounterClear locked_build s1 3) =
     Some (Inr (store_referred 3 nullptr example_runtime)) \<and>
   at_referredOffset (counterMemory example_runtime 3) = 7 \<and>
   at_referredOffset (counterMemory (store_referred 3 nullptr example_runtime) 3) = nullptr"
proof -
  have free: "at_lockOffset (counterMemory example_runtime 3) = 0"
    by (simp add: example_runtime_def)
  note th = clear_idempotent[of locked_build example_runtime 3]
  from th free have once:
    "WeakReferenceCounterClear locked_build example_runtime 3 =
       Some (Inr (store_referred 3 nullptr example_runtime))"
    by simp
  from th have twice:
    "and_then (WeakReferenceCounterClear locked_build example_runtime 3)
       (\<lambda>s1. WeakReferenceCounterClear locked_build s1 3) =
     WeakReferenceCounterClear locked_build example_runtime 3"
    by simp
  have slots:
    "at_referredOffset (counterMemory example_runtime 3) = 7"
    "at_referredOffset (counterMemory (store_referred 3 nullptr example_runtime) 3) = nullptr"
    by (simp_all add: example_runtime_def store_referred_def)
  from once twice slots show ?thesis by simp
qed

text \<open>
  Claim C4 (build-mode equivalence). On a Counter whose flag is free (no other thread
  holds it, which is what running without contention means), the build with
  \<^verbatim>\<open>KONAN_NO_THREADS\<close> and the build with the spin lock return the same reference from
  \<^verbatim>\<open>Konan_WeakReferenceCounter_get\<close> and leave the same Counter memory, and their
  \<^verbatim>\<open>WeakReferenceCounterClear\<close> return the same store, in which the slot is null.
\<close>

theorem build_mode_equivalence:
  assumes "KONAN_NO_THREADS plain" and "\<not> KONAN_NO_THREADS locked"
    and "at_lockOffset (counterMemory s c) = 0"
  shows "(\<exists>v s_plain s_locked.
            Konan_WeakReferenceCounter_get plain s c = Some (Inr (v, s_plain)) \<and>
            Konan_WeakReferenceCounter_get locked s c = Some (Inr (v, s_locked)) \<and>
            v = at_referredOffset (counterMemory s c) \<and>
            counterMemory s_plain = counterMemory s_locked) \<and>
         (\<exists>s'. WeakReferenceCounterClear plain s c = Some (Inr s') \<and>
               WeakReferenceCounterClear locked s c = Some (Inr s') \<and>
               at_referredOffset (counterMemory s' c) = nullptr)"
  using assms
  by (simp add: get_plain get_locked clear_plain clear_locked store_referred_def)

theorem build_mode_equivalence_witness:
  "Konan_WeakReferenceCounter_get plain_build example_runtime 3 =
     Some (Inr (7, example_runtime\<lparr>mmCalls := [Return 7]\<rparr>)) \<and>
   Konan_WeakReferenceCounter_get locked_build example_runtime 3 =
     Some (Inr (7, example_runtime\<lparr>mmCalls := [Hold 7, Return 7]\<rparr>)) \<and>
   WeakReferenceCounterClear plain_build example_runtime 3 =
     WeakReferenceCounterClear locked_build example_runtime 3"
proof -
  have hyps: "KONAN_NO_THREADS plain_build" "\<not> KONAN_NO_THREADS locked_build"
    "at_lockOffset (counterMemory example_runtime 3) = 0"
    by (simp_all add: plain_build_def locked_build_def example_runtime_def)
  have vals: "at_referredOffset (counterMemory example_runtime 3) = 7"
    "mmCalls example_runtime = []"
    by (simp_all add: example_runtime_def)
  from build_mode_equivalence[OF hyps]
  have clears: "WeakReferenceCounterClear plain_build example_runtime 3 =
     WeakReferenceCounterClear locked_build example_runtime 3"
    by auto
  from hyps vals clears show ?thesis
    by (simp add: get_plain get_locked)
qed

text \<open>
  Claim C6 (clear is non-owning and changes the slot only). A call of
  \<^verbatim>\<open>WeakReferenceCounterClear\<close> that returns has changed the store in one place: the slot of
  its Counter, which is null. It made no call into the memory manager (no reference count is
  touched), the flag has the value it had on entry (in the build with threads it went from
  0 to 1 and back), and every other Counter is as it was. With a free flag, or with
  \<^verbatim>\<open>KONAN_NO_THREADS\<close>, the call does return.
\<close>

theorem clear_frame:
  "(WeakReferenceCounterClear cfg s c = Some (Inr s') \<longrightarrow>
      s' = s\<lparr>counterMemory := (counterMemory s)
                (c := (counterMemory s c)\<lparr>at_referredOffset := nullptr\<rparr>)\<rparr> \<and>
      mmCalls s' = mmCalls s \<and>
      at_lockOffset (counterMemory s' c) = at_lockOffset (counterMemory s c) \<and>
      (\<forall>a. a \<noteq> c \<longrightarrow> counterMemory s' a = counterMemory s a)) \<and>
   (KONAN_NO_THREADS cfg \<or> at_lockOffset (counterMemory s c) = 0 \<longrightarrow>
      (\<exists>s'. WeakReferenceCounterClear cfg s c = Some (Inr s'))) \<and>
   (\<not> KONAN_NO_THREADS cfg \<and> at_lockOffset (counterMemory s c) = 0 \<longrightarrow>
      lock (at_lockOffset (counterMemory s c)) = Some 1 \<and> unlock 1 = Inr 0)"
proof (cases "KONAN_NO_THREADS cfg")
  case True
  then show ?thesis
    by (auto simp: clear_plain store_referred_def)
next
  case False
  then show ?thesis
    by (auto simp: clear_locked store_referred_def lock_free unlock_held split: if_splits)
qed

theorem clear_frame_witness:
  "WeakReferenceCounterClear locked_build (example_runtime\<lparr>mmCalls := [Hold 7]\<rparr>) 3 =
     Some (Inr (example_runtime
       \<lparr>mmCalls := [Hold 7],
        counterMemory := (counterMemory example_runtime)
          (3 := \<lparr>at_referredOffset = nullptr, at_lockOffset = 0\<rparr>)\<rparr>))"
proof -
  let ?s = "example_runtime\<lparr>mmCalls := [Hold 7]\<rparr>"
  have free: "at_lockOffset (counterMemory ?s 3) = 0" "\<not> KONAN_NO_THREADS locked_build"
    by (simp_all add: example_runtime_def locked_build_def)
  note th = clear_frame[of locked_build ?s 3]
  from th free obtain s' where ret: "WeakReferenceCounterClear locked_build ?s 3 = Some (Inr s')"
    by blast
  with th[of s'] have "s' = ?s\<lparr>counterMemory := (counterMemory ?s)
                (3 := (counterMemory ?s 3)\<lparr>at_referredOffset := nullptr\<rparr>)\<rparr>"
    by blast
  with ret show ?thesis
    by (simp add: example_runtime_def)
qed

text \<open>
  Claim C9 (materialization reads only). A call of \<^verbatim>\<open>Konan_WeakReferenceCounter_get\<close> that
  returns gives the content of the slot and leaves every Counter's memory (slot and flag)
  as it was; the store differs only by the memory-manager calls that root the returned
  reference (\<^verbatim>\<open>ObjHolder\<close> in the build with threads, then \<^verbatim>\<open>RETURN_OBJ\<close>). With a free flag, or
  with \<^verbatim>\<open>KONAN_NO_THREADS\<close>, the call does return. Among other threads, too, no step of a
  materialization (its call included) changes the slot.
\<close>

theorem get_is_pure_read:
  "(Konan_WeakReferenceCounter_get cfg s c = Some (Inr (v, s')) \<longrightarrow>
      v = at_referredOffset (counterMemory s c) \<and>
      counterMemory s' = counterMemory s \<and>
      s'\<lparr>mmCalls := mmCalls s\<rparr> = s \<and>
      (mmCalls s' = mmCalls s @ [Return v] \<or> mmCalls s' = mmCalls s @ [Hold v, Return v])) \<and>
   (KONAN_NO_THREADS cfg \<or> at_lockOffset (counterMemory s c) = 0 \<longrightarrow>
      (\<exists>s'. Konan_WeakReferenceCounter_get cfg s c =
              Some (Inr (at_referredOffset (counterMemory s c), s')))) \<and>
   (materializing (pcs m t) \<or> (pcs m t = Idle \<and> k = Materialize) \<longrightarrow>
      at_referredOffset (shared (step m (t, k))) = at_referredOffset (shared m))"
proof -
  have single:
    "(Konan_WeakReferenceCounter_get cfg s c = Some (Inr (v, s')) \<longrightarrow>
        v = at_referredOffset (counterMemory s c) \<and>
        counterMemory s' = counterMemory s \<and>
        s'\<lparr>mmCalls := mmCalls s\<rparr> = s \<and>
        (mmCalls s' = mmCalls s @ [Return v] \<or> mmCalls s' = mmCalls s @ [Hold v, Return v])) \<and>
     (KONAN_NO_THREADS cfg \<or> at_lockOffset (counterMemory s c) = 0 \<longrightarrow>
        (\<exists>s'. Konan_WeakReferenceCounter_get cfg s c =
                Some (Inr (at_referredOffset (counterMemory s c), s'))))"
  proof (cases "KONAN_NO_THREADS cfg")
    case True
    then show ?thesis
      by (auto simp: get_plain)
  next
    case False
    then show ?thesis
      by (auto simp: get_locked split: if_splits)
  qed
  have steps:
    "materializing (pcs m t) \<or> (pcs m t = Idle \<and> k = Materialize) \<longrightarrow>
       at_referredOffset (shared (step m (t, k))) = at_referredOffset (shared m)"
    by (cases "pcs m t")
       (auto simp: step_def lock_step_def unlock_step_def goto_def set_lock_def
          sync_val_compare_and_swap_def)
  show ?thesis
    by (rule conjI[OF conjunct1[OF single] conjI[OF conjunct2[OF single] steps]])
qed

theorem get_is_pure_read_witness:
  "Konan_WeakReferenceCounter_get locked_build example_runtime 3 =
     Some (Inr (7, example_runtime\<lparr>mmCalls := [Hold 7, Return 7]\<rparr>)) \<and>
   counterMemory (example_runtime\<lparr>mmCalls := [Hold 7, Return 7]\<rparr>) = counterMemory example_runtime \<and>
   pcs (init 7) 0 = Idle \<and>
   at_referredOffset (shared (step (init 7) (0, Materialize))) = at_referredOffset (shared (init 7))"
proof -
  have free: "at_lockOffset (counterMemory example_runtime 3) = 0"
    "\<not> KONAN_NO_THREADS locked_build"
    by (simp_all add: example_runtime_def locked_build_def)
  have vals: "at_referredOffset (counterMemory example_runtime 3) = 7"
    "mmCalls example_runtime = []"
    by (simp_all add: example_runtime_def)
  have idle: "pcs (init 7) 0 = Idle"
    by (simp add: init_def)
  note th = get_is_pure_read[where cfg = locked_build and s = example_runtime and c = 3
      and m = "init 7" and t = 0 and k = Materialize]
  from th free vals obtain s' where
    ret: "Konan_WeakReferenceCounter_get locked_build example_runtime 3 = Some (Inr (7, s'))"
    by auto
  with th[of 7 s'] vals free
  have "s'\<lparr>mmCalls := []\<rparr> = example_runtime" "mmCalls s' = [Hold 7, Return 7]"
    by (auto simp: get_locked)
  then have "s' = example_runtime\<lparr>mmCalls := [Hold 7, Return 7]\<rparr>"
    by (cases s') (auto simp: example_runtime_def)
  with ret have whole:
    "Konan_WeakReferenceCounter_get locked_build example_runtime 3 =
       Some (Inr (7, example_runtime\<lparr>mmCalls := [Hold 7, Return 7]\<rparr>))"
    "counterMemory (example_runtime\<lparr>mmCalls := [Hold 7, Return 7]\<rparr>) =
       counterMemory example_runtime"
    by simp_all
  from th[of 7 s'] idle
  have "at_referredOffset (shared (step (init 7) (0, Materialize))) =
          at_referredOffset (shared (init 7))"
    by (simp only: simp_thms)
  with whole idle show ?thesis by (simp only: simp_thms)
qed

subsection \<open>Acquisition of a foreign referent\<close>

text \<open>
  Claim C5 (foreign routing). With \<^verbatim>\<open>KONAN_OBJC_INTEROP\<close>, for a referent that is an instance of
  the ObjC wrapper type, \<^verbatim>\<open>Konan_getWeakReferenceImpl\<close> returns what
  \<^verbatim>\<open>makeObjCWeakReferenceImpl\<close> returns for the wrapped handle \<^verbatim>\<open>meta->associatedObject_\<close>, and
  the only part of the store that changes is the foreign runtime's: nothing is allocated, no
  Counter memory and no Cache entry is written, no memory-manager call is made, and the
  result does not depend on the content of the referent's Cache entry.
\<close>

theorem foreign_routing:
  assumes "KONAN_OBJC_INTEROP cfg" and "isObjCObjectWrapper s r"
  shows "Konan_getWeakReferenceImpl cfg makeObjC s r =
           (fst (makeObjC (meta_associatedObject (metaObject s r)) (objcRuntime s)),
            s\<lparr>objcRuntime := snd (makeObjC (meta_associatedObject (metaObject s r)) (objcRuntime s))\<rparr>) \<and>
         heapNext (snd (Konan_getWeakReferenceImpl cfg makeObjC s r)) = heapNext s \<and>
         counterMemory (snd (Konan_getWeakReferenceImpl cfg makeObjC s r)) = counterMemory s \<and>
         metaObject (snd (Konan_getWeakReferenceImpl cfg makeObjC s r)) = metaObject s \<and>
         mmCalls (snd (Konan_getWeakReferenceImpl cfg makeObjC s r)) = mmCalls s \<and>
         (\<forall>x. fst (Konan_getWeakReferenceImpl cfg makeObjC
                     (s\<lparr>metaObject := (metaObject s)(r := (metaObject s r)\<lparr>meta_counter := x\<rparr>)\<rparr>) r) =
               fst (Konan_getWeakReferenceImpl cfg makeObjC s r))"
  using assms
  by (simp add: Konan_getWeakReferenceImpl_def split: prod.splits)

theorem foreign_routing_witness:
  "Konan_getWeakReferenceImpl locked_build example_makeObjC example_runtime 2 =
     (109, example_runtime)"
proof -
  have hyps: "KONAN_OBJC_INTEROP locked_build" "isObjCObjectWrapper example_runtime 2"
    by (simp_all add: locked_build_def example_runtime_def)
  have "meta_associatedObject (metaObject example_runtime 2) = 9"
    by (simp add: example_runtime_def)
  with foreign_routing[OF hyps, of example_makeObjC] show ?thesis
    by (simp add: example_makeObjC_def)
qed

section \<open>Properties of the Counter machine\<close>

subsection \<open>Halves of a pointer\<close>

lemma join_lo_hi [simp]: "join_halves (lo_half p) (hi_half p) = p"
  by (simp add: join_halves_def lo_half_def hi_half_def)

lemma lo_join_zero [simp]: "lo_half (join_halves 0 h) = 0"
  by (simp add: join_halves_def lo_half_def)

lemma halves_null [simp]: "lo_half 0 = 0" "hi_half 0 = 0" "join_halves 0 0 = 0"
  by (simp_all add: join_halves_def lo_half_def hi_half_def)

subsection \<open>Steps of the Counter machine\<close>

lemma holders_goto:
  "holders (goto t p m) =
     (if in_critical_section p then insert t (holders m) else holders m - {t})"
  by (auto simp: holders_def goto_def)

lemma holders_set [simp]:
  "holders (set_lock l m) = holders m" "holders (set_referred v m) = holders m"
  by (simp_all add: holders_def set_lock_def set_referred_def)

lemma fields_goto [simp]:
  "shared (goto t p m) = shared m" "aborted (goto t p m) = aborted m"
  "pcs (goto t p m) = (pcs m)(t := p)"
  by (simp_all add: goto_def)

lemma fields_set_lock [simp]:
  "at_lockOffset (shared (set_lock l m)) = l"
  "at_referredOffset (shared (set_lock l m)) = at_referredOffset (shared m)"
  "aborted (set_lock l m) = aborted m" "pcs (set_lock l m) = pcs m"
  by (simp_all add: set_lock_def)

lemma fields_set_referred [simp]:
  "at_lockOffset (shared (set_referred v m)) = at_lockOffset (shared m)"
  "at_referredOffset (shared (set_referred v m)) = v"
  "aborted (set_referred v m) = aborted m" "pcs (set_referred v m) = pcs m"
  by (simp_all add: set_referred_def)

lemma run_Nil [simp]: "run m [] = m"
  by (simp add: run_def)

lemma run_snoc: "run m (sched @ [e]) = step (run m sched) e"
  by (simp add: run_def)

lemma run_append: "run m (s1 @ s2) = run (run m s1) s2"
  by (simp add: run_def)

lemma run_Cons: "run m (e # sched) = run (step m e) sched"
  by (simp add: run_def)

subsection \<open>Mutual exclusion\<close>

lemma lock_inv_init: "lock_inv (init r)"
  by (simp add: lock_inv_def init_def holders_def)

lemma lock_inv_step:
  assumes "lock_inv m"
  shows "lock_inv (step m e)"
proof (cases e)
  case (Pair t c)
  show ?thesis
  proof (cases "in_critical_section (pcs m t)")
    case True
    then have "t \<in> holders m" by (simp add: holders_def)
    with assms have h: "holders m = {t}" "at_lockOffset (shared m) = 1" "\<not> aborted m"
      by (auto simp: lock_inv_def)
    from True h show ?thesis
      by (cases "pcs m t")
         (simp_all add: Pair lock_inv_def step_def holders_goto unlock_step_def
            sync_val_compare_and_swap_def)
  next
    case False
    then have "t \<notin> holders m" by (simp add: holders_def)
    with False assms show ?thesis
      by (cases "pcs m t")
         (auto simp: Pair lock_inv_def step_def holders_goto lock_step_def
            sync_val_compare_and_swap_def split: call.splits)
  qed
qed

subsection \<open>The slot and the copies of it\<close>

lemma slot_inv_init: "slot_inv r (init r)"
  by (simp add: slot_inv_def init_def)

lemma local_ok_outside:
  "\<not> in_critical_section q \<Longrightarrow> local_ok r p q \<Longrightarrow> (p = nullptr \<longrightarrow> p' = nullptr) \<Longrightarrow>
   local_ok r p' q"
  by (cases q) auto

lemma slot_inv_step:
  assumes "lock_inv m" and "slot_inv r m"
  shows "slot_inv r (step m e)"
proof (cases e)
  case (Pair t c)
  from assms(2) have ok: "\<And>u. local_ok r (at_referredOffset (shared m)) (pcs m u)"
    by (simp add: slot_inv_def)
  show ?thesis
  proof (cases "in_critical_section (pcs m t)")
    case True
    then have "t \<in> holders m" by (simp add: holders_def)
    with assms(1) have h: "holders m = {t}" "at_lockOffset (shared m) = 1" "\<not> aborted m"
      by (auto simp: lock_inv_def)
    have others: "\<not> in_critical_section (pcs m u)" if "u \<noteq> t" for u
      using h(1) that by (auto simp: holders_def)
    have rest: "local_ok r p' (pcs m u)"
      if "u \<noteq> t" "at_referredOffset (shared m) = nullptr \<longrightarrow> p' = nullptr" for u p'
      using local_ok_outside[OF others[OF that(1)] ok that(2)] .
    from True h ok[of t] rest show ?thesis
      by (cases "pcs m t")
         (auto simp: Pair slot_inv_def step_def holders_goto unlock_step_def
            sync_val_compare_and_swap_def)
  next
    case False
    then have "t \<notin> holders m" by (simp add: holders_def)
    with False assms ok show ?thesis
      by (cases "pcs m t")
         (auto simp: Pair lock_inv_def slot_inv_def step_def holders_goto lock_step_def
            sync_val_compare_and_swap_def split: call.splits)
  qed
qed

lemma reachable_inv: "lock_inv (run (init r) sched) \<and> slot_inv r (run (init r) sched)"
proof (induction sched rule: rev_induct)
  case Nil
  show ?case by (simp add: lock_inv_init slot_inv_init)
next
  case (snoc e sched)
  then show ?case by (simp add: run_snoc lock_inv_step slot_inv_step)
qed

lemma reachable_lock_inv: "lock_inv (run (init r) sched)"
  using reachable_inv by blast

lemma reachable_slot_inv: "slot_inv r (run (init r) sched)"
  using reachable_inv by blast

lemma reachable_local_ok:
  "local_ok r (at_referredOffset (shared (run (init r) sched))) (pcs (run (init r) sched) t)"
  using reachable_slot_inv[of r sched] by (simp add: slot_inv_def)

lemma lock_inv_critical:
  assumes "lock_inv m" and "in_critical_section (pcs m t)"
  shows "at_lockOffset (shared m) = 1" and "in_critical_section (pcs m u) \<Longrightarrow> u = t"
proof -
  from assms(2) have "t \<in> holders m" by (simp add: holders_def)
  with assms(1) have h: "holders m = {t}" "at_lockOffset (shared m) = 1"
    by (auto simp: lock_inv_def)
  from h(2) show "at_lockOffset (shared m) = 1" .
  assume "in_critical_section (pcs m u)"
  then have "u \<in> holders m" by (simp add: holders_def)
  with h(1) show "u = t" by simp
qed

lemma lock_inv_free_iff:
  assumes "lock_inv m"
  shows "at_lockOffset (shared m) = 0 \<longleftrightarrow> (\<forall>t. \<not> in_critical_section (pcs m t))"
  using assms by (auto simp: lock_inv_def holders_def)

subsection \<open>Once null, always null\<close>

lemma null_step:
  "at_referredOffset (shared m) = nullptr \<Longrightarrow> at_referredOffset (shared (step m e)) = nullptr"
  by (cases e; cases "pcs m (fst e)")
     (auto simp: step_def lock_step_def unlock_step_def sync_val_compare_and_swap_def)

lemma null_run:
  "at_referredOffset (shared m) = nullptr \<Longrightarrow> at_referredOffset (shared (run m sched)) = nullptr"
  by (induction sched rule: rev_induct) (simp_all add: run_snoc null_step)

lemma carries_null_step:
  assumes "at_referredOffset (shared m) = nullptr"
    and "materializing (pcs m t) \<longrightarrow> carries_null (pcs m t)"
  shows "materializing (pcs (step m e) t) \<longrightarrow> carries_null (pcs (step m e) t)"
proof (cases e)
  case (Pair u c)
  show ?thesis
  proof (cases "u = t")
    case True
    with assms show ?thesis
      by (cases "pcs m t")
         (auto simp: Pair step_def lock_step_def unlock_step_def sync_val_compare_and_swap_def
            split: call.splits)
  next
    case False
    with assms show ?thesis
      by (cases "pcs m u")
         (auto simp: Pair step_def lock_step_def unlock_step_def sync_val_compare_and_swap_def
            split: call.splits)
  qed
qed

lemma carries_null_run:
  assumes "at_referredOffset (shared m) = nullptr"
    and "materializing (pcs m t) \<longrightarrow> carries_null (pcs m t)"
  shows "materializing (pcs (run m sched) t) \<longrightarrow> carries_null (pcs (run m sched) t)"
proof (induction sched rule: rev_induct)
  case Nil
  from assms(2) show ?case by simp
next
  case (snoc e sched)
  from carries_null_step[OF null_run[OF assms(1)] snoc] show ?case
    by (simp add: run_snoc)
qed

lemmas exec =
  run_def step_def lock_step_def unlock_step_def sync_val_compare_and_swap_def init_def
  goto_def set_lock_def set_referred_def lo_half_def hi_half_def join_halves_def

subsection \<open>Claims about threads on one Counter\<close>

text \<open>
  Claim C7 (the assertion in unlock never fails). \<^verbatim>\<open>lock\<close> and \<^verbatim>\<open>unlock\<close> are local to the
  file; their only callers are the two functions of the machine, which call \<^verbatim>\<open>unlock\<close> only
  after \<^verbatim>\<open>lock\<close> has returned on the same flag. From a Counter with a free flag, under every
  schedule of every number of threads, the process has not aborted; a thread that is about
  to call \<^verbatim>\<open>unlock\<close> finds the flag at 1, and its step does not abort.
\<close>

theorem unlock_assertion_never_fails:
  "\<not> aborted (run (init r) sched) \<and>
   (pcs (run (init r) sched) t = Get_unlock holder \<or> pcs (run (init r) sched) t = Clear_unlock \<longrightarrow>
      at_lockOffset (shared (run (init r) sched)) = 1 \<and>
      \<not> aborted (step (run (init r) sched) (t, c)))"
proof -
  let ?m = "run (init r) sched"
  have inv: "lock_inv ?m" by (rule reachable_lock_inv)
  then have alive: "\<not> aborted ?m" by (simp add: lock_inv_def)
  have "lock_inv (step ?m (t, c))" using inv by (rule lock_inv_step)
  then have alive': "\<not> aborted (step ?m (t, c))" by (simp add: lock_inv_def)
  have held: "at_lockOffset (shared ?m) = 1"
    if "pcs ?m t = Get_unlock holder \<or> pcs ?m t = Clear_unlock"
  proof -
    from that have "in_critical_section (pcs ?m t)" by auto
    with inv show ?thesis by (rule lock_inv_critical(1))
  qed
  from alive alive' held show ?thesis by blast
qed

theorem unlock_assertion_never_fails_witness:
  "pcs (run (init 5) [(0, Materialize), (1, Invalidate), (0, Materialize), (1, Invalidate),
                      (0, Materialize), (0, Materialize)]) 0 = Get_unlock 5 \<and>
   at_lockOffset (shared (run (init 5) [(0, Materialize), (1, Invalidate), (0, Materialize),
                      (1, Invalidate), (0, Materialize), (0, Materialize)])) = 1 \<and>
   \<not> aborted (step (run (init 5) [(0, Materialize), (1, Invalidate), (0, Materialize),
                      (1, Invalidate), (0, Materialize), (0, Materialize)]) (0, Materialize))"
proof -
  let ?m = "run (init 5) [(0, Materialize), (1, Invalidate), (0, Materialize), (1, Invalidate),
                 (0, Materialize), (0, Materialize)]"
  have at: "pcs ?m 0 = Get_unlock 5"
    by (simp add: exec)
  have "pcs ?m 0 = Get_unlock 5 \<or> pcs ?m 0 = Clear_unlock \<longrightarrow>
      at_lockOffset (shared ?m) = 1 \<and> \<not> aborted (step ?m (0, Materialize))"
    by (rule conjunct2[OF unlock_assertion_never_fails])
  with at show ?thesis by (intro conjI) (rule at, simp_all only: simp_thms)
qed


text \<open>
  Claim C10 (the flag is 0 or 1, and 0 when nobody is inside). From a Counter with a free
  flag, under every schedule: the flag is 0 or 1; it is 0 exactly when no thread is between
  its \<^verbatim>\<open>lock\<close> and its \<^verbatim>\<open>unlock\<close>, in particular whenever every call has returned; and the step
  that completes the \<^verbatim>\<open>unlock\<close> of a materialization or of a clear leaves the flag at 0.
  For single calls of the functions in the build with threads: a call that returns was
  entered with the flag at 0 and leaves it at 0.
\<close>

theorem lock_flag_invariant:
  "(at_lockOffset (shared (run (init r) sched)) = 0 \<or>
    at_lockOffset (shared (run (init r) sched)) = 1) \<and>
   (at_lockOffset (shared (run (init r) sched)) = 0 \<longleftrightarrow>
      (\<forall>u. \<not> in_critical_section (pcs (run (init r) sched) u))) \<and>
   (pcs (run (init r) sched) t = Get_unlock holder \<or> pcs (run (init r) sched) t = Clear_unlock \<longrightarrow>
      at_lockOffset (shared (step (run (init r) sched) (t, c))) = 0 \<and>
      \<not> in_critical_section (pcs (step (run (init r) sched) (t, c)) t)) \<and>
   (\<not> KONAN_NO_THREADS cfg \<and> Konan_WeakReferenceCounter_get cfg s a = Some (Inr (v, s')) \<longrightarrow>
      at_lockOffset (counterMemory s a) = 0 \<and> at_lockOffset (counterMemory s' a) = 0) \<and>
   (\<not> KONAN_NO_THREADS cfg \<and> WeakReferenceCounterClear cfg s a = Some (Inr s'') \<longrightarrow>
      at_lockOffset (counterMemory s a) = 0 \<and> at_lockOffset (counterMemory s'' a) = 0)"
proof -
  let ?m = "run (init r) sched"
  have inv: "lock_inv ?m" by (rule reachable_lock_inv)
  then have two: "at_lockOffset (shared ?m) = 0 \<or> at_lockOffset (shared ?m) = 1"
    by (auto simp: lock_inv_def)
  have free: "at_lockOffset (shared ?m) = 0 \<longleftrightarrow> (\<forall>u. \<not> in_critical_section (pcs ?m u))"
    using inv by (rule lock_inv_free_iff)
  have released:
    "at_lockOffset (shared (step ?m (t, c))) = 0 \<and> \<not> in_critical_section (pcs (step ?m (t, c)) t)"
    if at: "pcs ?m t = Get_unlock holder \<or> pcs ?m t = Clear_unlock"
  proof -
    from at have "in_critical_section (pcs ?m t)" by auto
    with inv have "at_lockOffset (shared ?m) = 1" by (rule lock_inv_critical(1))
    moreover from inv have "\<not> aborted ?m" by (simp add: lock_inv_def)
    ultimately show ?thesis
      using at by (auto simp: step_def unlock_step_def sync_val_compare_and_swap_def)
  qed
  have get: "at_lockOffset (counterMemory s a) = 0 \<and> at_lockOffset (counterMemory s' a) = 0"
    if "\<not> KONAN_NO_THREADS cfg \<and> Konan_WeakReferenceCounter_get cfg s a = Some (Inr (v, s'))"
    using that by (auto simp: get_locked split: if_splits)
  have clear: "at_lockOffset (counterMemory s a) = 0 \<and> at_lockOffset (counterMemory s'' a) = 0"
    if "\<not> KONAN_NO_THREADS cfg \<and> WeakReferenceCounterClear cfg s a = Some (Inr s'')"
    using that by (auto simp: clear_locked store_referred_def split: if_splits)
  from two free released get clear show ?thesis by blast
qed


theorem lock_flag_invariant_witness:
  "pcs (run (init 5) [(0, Materialize), (1, Invalidate), (0, Materialize), (1, Invalidate),
                      (0, Materialize), (0, Materialize)]) 0 = Get_unlock 5 \<and>
   at_lockOffset (shared (run (init 5) [(0, Materialize), (1, Invalidate), (0, Materialize),
                      (1, Invalidate), (0, Materialize), (0, Materialize)])) = 1 \<and>
   at_lockOffset (shared (step (run (init 5) [(0, Materialize), (1, Invalidate),
                      (0, Materialize), (1, Invalidate), (0, Materialize), (0, Materialize)])
                    (0, Materialize))) = 0 \<and>
   Konan_WeakReferenceCounter_get locked_build example_runtime 3 =
     Some (Inr (7, example_runtime\<lparr>mmCalls := [Hold 7, Return 7]\<rparr>)) \<and>
   at_lockOffset (counterMemory (example_runtime\<lparr>mmCalls := [Hold 7, Return 7]\<rparr>) 3) = 0 \<and>
   WeakReferenceCounterClear locked_build example_runtime 3 =
     Some (Inr (store_referred 3 nullptr example_runtime)) \<and>
   at_lockOffset (counterMemory (store_referred 3 nullptr example_runtime) 3) = 0"
proof -
  let ?sched = "[(0, Materialize), (1, Invalidate), (0, Materialize), (1, Invalidate),
                 (0, Materialize), (0, Materialize)]"
  let ?m = "run (init 5) ?sched"
  let ?s' = "example_runtime\<lparr>mmCalls := [Hold 7, Return 7]\<rparr>"
  let ?s'' = "store_referred 3 nullptr example_runtime"
  note th = lock_flag_invariant[where r = 5 and sched = ?sched and t = 0 and holder = 5
      and c = Materialize and cfg = locked_build and s = example_runtime and a = 3 and v = 7
      and s' = ?s' and s'' = ?s'']
  have at: "pcs ?m 0 = Get_unlock 5"
    by (simp add: exec)
  have held: "at_lockOffset (shared ?m) = 1"
    by (simp add: exec)
  have threads: "\<not> KONAN_NO_THREADS locked_build"
    by (simp add: locked_build_def)
  have free: "at_lockOffset (counterMemory example_runtime 3) = 0"
    by (simp add: example_runtime_def)
  have got: "Konan_WeakReferenceCounter_get locked_build example_runtime 3 = Some (Inr (7, ?s'))"
    using threads by (simp add: get_locked) (simp add: example_runtime_def)
  have cleared: "WeakReferenceCounterClear locked_build example_runtime 3 = Some (Inr ?s'')"
    using threads free by (simp add: clear_locked)
  from th at have released: "at_lockOffset (shared (step ?m (0, Materialize))) = 0"
    by (simp only: simp_thms)
  from th threads got have after_get: "at_lockOffset (counterMemory ?s' 3) = 0"
    by (simp only: simp_thms)
  from th threads cleared have after_clear: "at_lockOffset (counterMemory ?s'' 3) = 0"
    by (simp only: simp_thms)
  from at held released got after_get cleared after_clear show ?thesis
    by (simp only: simp_thms)
qed


text \<open>
  Claim C8 (no torn copy). From a Counter created for the referent \<open>r\<close>, under every schedule
  in which materializations race with clears, with loads and stores of the slot done in two
  halves: the value a materialization returns is \<open>r\<close> or null; the half already loaded is
  the half of the slot as it is now; the completed copy, while the flag is still held, is the
  slot as it is now; and a thread inside the critical section finds the flag at 1 and is the
  only thread inside.
\<close>

theorem tear_freedom:
  "(pcs (run (init r) sched) t = Get_returned v \<longrightarrow> v = r \<or> v = nullptr) \<and>
   (pcs (run (init r) sched) t = Get_load_hi lo \<longrightarrow>
      lo = lo_half (at_referredOffset (shared (run (init r) sched)))) \<and>
   (pcs (run (init r) sched) t = Get_unlock holder \<longrightarrow>
      holder = at_referredOffset (shared (run (init r) sched)) \<and>
      (holder = r \<or> holder = nullptr)) \<and>
   (in_critical_section (pcs (run (init r) sched) t) \<longrightarrow>
      at_lockOffset (shared (run (init r) sched)) = 1 \<and>
      (\<forall>u. in_critical_section (pcs (run (init r) sched) u) \<longrightarrow> u = t))"
proof -
  let ?m = "run (init r) sched"
  have inv: "lock_inv ?m" by (rule reachable_lock_inv)
  have ok: "local_ok r (at_referredOffset (shared ?m)) (pcs ?m t)"
    by (rule reachable_local_ok)
  have returned: "v = r \<or> v = nullptr" if "pcs ?m t = Get_returned v"
    using ok that by simp
  have half: "lo = lo_half (at_referredOffset (shared ?m))" if "pcs ?m t = Get_load_hi lo"
    using ok that by simp
  have copy: "holder = at_referredOffset (shared ?m) \<and> (holder = r \<or> holder = nullptr)"
    if "pcs ?m t = Get_unlock holder"
    using ok that by auto
  have excl: "at_lockOffset (shared ?m) = 1 \<and> (\<forall>u. in_critical_section (pcs ?m u) \<longrightarrow> u = t)"
    if "in_critical_section (pcs ?m t)"
    using lock_inv_critical[OF inv that] by blast
  from returned half copy excl show ?thesis by blast
qed

theorem tear_freedom_witness:
  "pcs (run (init 4294967301) [(0, Materialize), (1, Invalidate), (0, Materialize),
          (1, Invalidate), (0, Materialize), (1, Invalidate), (0, Materialize)]) 0 =
     Get_unlock 4294967301 \<and>
   at_referredOffset (shared (run (init 4294967301) [(0, Materialize), (1, Invalidate),
          (0, Materialize), (1, Invalidate), (0, Materialize), (1, Invalidate),
          (0, Materialize)])) = 4294967301 \<and>
   at_lockOffset (shared (run (init 4294967301) [(0, Materialize), (1, Invalidate),
          (0, Materialize), (1, Invalidate), (0, Materialize), (1, Invalidate),
          (0, Materialize)])) = 1 \<and>
   pcs (run (init 4294967301) [(0, Materialize), (1, Invalidate), (0, Materialize),
          (1, Invalidate), (0, Materialize), (1, Invalidate), (0, Materialize),
          (0, Materialize), (1, Invalidate), (1, Invalidate), (1, Invalidate),
          (1, Invalidate)]) 0 = Get_returned 4294967301 \<and>
   pcs (run (init 4294967301) [(0, Materialize), (1, Invalidate), (0, Materialize),
          (1, Invalidate), (0, Materialize), (1, Invalidate), (0, Materialize),
          (0, Materialize), (1, Invalidate), (1, Invalidate), (1, Invalidate),
          (1, Invalidate)]) 1 = Clear_returned \<and>
   at_referredOffset (shared (run (init 4294967301) [(0, Materialize), (1, Invalidate),
          (0, Materialize), (1, Invalidate), (0, Materialize), (1, Invalidate),
          (0, Materialize), (0, Materialize), (1, Invalidate), (1, Invalidate),
          (1, Invalidate), (1, Invalidate)])) = nullptr"
proof -
  let ?s1 = "[(0, Materialize), (1, Invalidate), (0, Materialize),
          (1, Invalidate), (0, Materialize), (1, Invalidate), (0, Materialize)]"
  let ?m1 = "run (init 4294967301) ?s1"
  let ?s2 = "[(0, Materialize), (1, Invalidate), (0, Materialize),
          (1, Invalidate), (0, Materialize), (1, Invalidate), (0, Materialize),
          (0, Materialize), (1, Invalidate), (1, Invalidate), (1, Invalidate),
          (1, Invalidate)]"
  let ?m2 = "run (init 4294967301) ?s2"
  note th = tear_freedom[where r = 4294967301 and sched = ?s1 and t = 0
      and holder = 4294967301]
  have at: "pcs ?m1 0 = Get_unlock 4294967301"
    by (simp add: exec)
  then have crit: "in_critical_section (pcs ?m1 0)"
    by (simp only: in_critical_section.simps)
  from th at have slot: "4294967301 = at_referredOffset (shared ?m1)"
    by (simp only: simp_thms)
  from th crit have held: "at_lockOffset (shared ?m1) = 1"
    by (simp only: simp_thms)
  have after: "pcs ?m2 0 = Get_returned 4294967301" "pcs ?m2 1 = Clear_returned"
    "at_referredOffset (shared ?m2) = nullptr"
    by (simp_all add: exec)
  from at slot[symmetric] held after show ?thesis
    by (simp only: simp_thms)
qed

text \<open>
  The exclusion is what keeps the copy whole. From a Counter whose flag holds 2, a value the
  protocol never stores, \<^verbatim>\<open>lock\<close> returns at once for every thread, a load overlaps a store,
  and the copy is a value that the slot never held before the clear began.
\<close>

lemma torn_load_without_exclusion:
  "pcs (run ((init 4294967301)\<lparr>shared := \<lparr>at_referredOffset = 4294967301, at_lockOffset = 2\<rparr>\<rparr>)
          [(1, Invalidate), (1, Invalidate), (1, Invalidate),
           (0, Materialize), (0, Materialize), (0, Materialize), (0, Materialize)]) 0 =
     Get_unlock 4294967296"
  by (simp add: exec)

lemma unlock_on_free_flag_aborts:
  "aborted (step ((init r)\<lparr>pcs := (\<lambda>t. Clear_unlock)\<rparr>) (t, c))"
  by (simp add: exec)

text \<open>A call that runs alone on a free flag: five steps from the call to the return.\<close>

lemma solo_materialize:
  "run (init r) [(t, Materialize), (t, Materialize), (t, Materialize), (t, Materialize),
                 (t, Materialize)] =
     (init r)\<lparr>pcs := (pcs (init r))(t := Get_returned r)\<rparr>"
  by (simp add: run_def step_def lock_step_def unlock_step_def sync_val_compare_and_swap_def
      init_def goto_def set_lock_def)

lemma solo_invalidate:
  "run (init r) [(t, Invalidate), (t, Invalidate), (t, Invalidate), (t, Invalidate),
                 (t, Invalidate)] =
     (init nullptr)\<lparr>pcs := (pcs (init r))(t := Clear_returned)\<rparr>"
  by (simp add: run_def step_def lock_step_def unlock_step_def sync_val_compare_and_swap_def
      init_def goto_def set_lock_def set_referred_def)

text \<open>
  Claim C1 (monotonic invalidation). Take any schedule \<open>s1\<close> after which a thread has just
  returned from \<^verbatim>\<open>WeakReferenceCounterClear\<close>. Then after any continuation \<open>s2\<close> the slot is
  null, and every thread that is not inside a materialization at that point (so that its
  next materialization begins after the clear has completed) gets null from any
  materialization it completes later, after any further continuation \<open>s3\<close>. More generally
  a slot that is null stays null under every schedule of materializations and clears. For
  single calls in either build: a materialization on the store that a clear returned gives
  null and leaves the slot null.
\<close>

theorem monotonic_invalidation:
  "(pcs (run (init r) s1) c = Clear_returned \<longrightarrow>
      at_referredOffset (shared (run (init r) (s1 @ s2))) = nullptr \<and>
      (\<not> materializing (pcs (run (init r) (s1 @ s2)) t) \<and>
       pcs (run (init r) (s1 @ s2 @ s3)) t = Get_returned v \<longrightarrow> v = nullptr)) \<and>
   (at_referredOffset (shared (run (init r) s1)) = nullptr \<longrightarrow>
      at_referredOffset (shared (run (init r) (s1 @ s2))) = nullptr) \<and>
   (WeakReferenceCounterClear cfg s a = Some (Inr s') \<and>
    Konan_WeakReferenceCounter_get cfg s' a = Some (Inr (v', s'')) \<longrightarrow>
      v' = nullptr \<and> at_referredOffset (counterMemory s'' a) = nullptr)"
proof -
  let ?m1 = "run (init r) s1"
  let ?m2 = "run (init r) (s1 @ s2)"
  let ?m3 = "run (init r) (s1 @ s2 @ s3)"
  have m2: "?m2 = run ?m1 s2" by (rule run_append)
  have m3: "?m3 = run ?m2 s3" by (simp add: run_append)
  have stays: "at_referredOffset (shared ?m2) = nullptr"
    if "at_referredOffset (shared ?m1) = nullptr"
    unfolding m2 using that by (rule null_run)
  have cleared: "at_referredOffset (shared ?m1) = nullptr" if "pcs ?m1 c = Clear_returned"
    using reachable_local_ok[of r s1 c] that by simp
  have later: "v = nullptr"
    if "pcs ?m1 c = Clear_returned" "\<not> materializing (pcs ?m2 t)" "pcs ?m3 t = Get_returned v"
  proof -
    from that(1) have null: "at_referredOffset (shared ?m2) = nullptr"
      by (intro stays cleared)
    from that(2) have "materializing (pcs ?m2 t) \<longrightarrow> carries_null (pcs ?m2 t)" by simp
    with null have "materializing (pcs (run ?m2 s3) t) \<longrightarrow> carries_null (pcs (run ?m2 s3) t)"
      by (rule carries_null_run)
    with that(3) show ?thesis by (simp add: m3[symmetric])
  qed
  have single: "v' = nullptr \<and> at_referredOffset (counterMemory s'' a) = nullptr"
    if "WeakReferenceCounterClear cfg s a = Some (Inr s') \<and>
        Konan_WeakReferenceCounter_get cfg s' a = Some (Inr (v', s''))"
  proof -
    from that have "s' = store_referred a nullptr s"
      by (cases "KONAN_NO_THREADS cfg") (auto simp: clear_plain clear_locked split: if_splits)
    then have null: "at_referredOffset (counterMemory s' a) = nullptr"
      by (simp add: store_referred_def)
    from that null show ?thesis
      by (cases "KONAN_NO_THREADS cfg") (auto simp: get_plain get_locked split: if_splits)
  qed
  show ?thesis
  proof (intro conjI impI)
    assume ret: "pcs ?m1 c = Clear_returned"
    then show "at_referredOffset (shared ?m2) = nullptr"
      by (intro stays cleared)
    assume "\<not> materializing (pcs ?m2 t) \<and> pcs ?m3 t = Get_returned v"
    with ret show "v = nullptr"
      using later by simp
  next
    assume "at_referredOffset (shared ?m1) = nullptr"
    then show "at_referredOffset (shared ?m2) = nullptr" by (rule stays)
  next
    assume both: "WeakReferenceCounterClear cfg s a = Some (Inr s') \<and>
        Konan_WeakReferenceCounter_get cfg s' a = Some (Inr (v', s''))"
    from single[OF both] show "v' = nullptr" by simp
    from single[OF both] show "at_referredOffset (counterMemory s'' a) = nullptr" by simp
  qed
qed


theorem monotonic_invalidation_witness:
  "pcs (run (init 5) [(2, Materialize), (2, Materialize), (2, Materialize), (2, Materialize),
          (2, Materialize), (0, Invalidate), (0, Invalidate), (0, Invalidate), (0, Invalidate),
          (0, Invalidate)]) 0 = Clear_returned \<and>
   pcs (run (init 5) [(2, Materialize), (2, Materialize), (2, Materialize), (2, Materialize),
          (2, Materialize), (0, Invalidate), (0, Invalidate), (0, Invalidate), (0, Invalidate),
          (0, Invalidate)]) 2 = Get_returned 5 \<and>
   at_referredOffset (shared (run (init 5) ([(2, Materialize), (2, Materialize),
          (2, Materialize), (2, Materialize), (2, Materialize), (0, Invalidate),
          (0, Invalidate), (0, Invalidate), (0, Invalidate), (0, Invalidate)] @
          [(0, Invalidate), (0, Invalidate)]))) = nullptr \<and>
   pcs (run (init 5) ([(2, Materialize), (2, Materialize), (2, Materialize), (2, Materialize),
          (2, Materialize), (0, Invalidate), (0, Invalidate), (0, Invalidate), (0, Invalidate),
          (0, Invalidate)] @ [(0, Invalidate), (0, Invalidate)] @
          [(1, Materialize), (1, Materialize), (1, Materialize), (1, Materialize),
           (1, Materialize)])) 1 = Get_returned nullptr \<and>
   WeakReferenceCounterClear plain_build example_runtime 3 =
     Some (Inr (store_referred 3 nullptr example_runtime)) \<and>
   Konan_WeakReferenceCounter_get plain_build (store_referred 3 nullptr example_runtime) 3 =
     Some (Inr (nullptr, (store_referred 3 nullptr example_runtime)\<lparr>mmCalls := [Return nullptr]\<rparr>))"
proof -
  let ?s1 = "[(2, Materialize), (2, Materialize), (2, Materialize), (2, Materialize),
          (2, Materialize), (0, Invalidate), (0, Invalidate), (0, Invalidate), (0, Invalidate),
          (0, Invalidate)]"
  let ?s2 = "[(0, Invalidate), (0, Invalidate)]"
  let ?s3 = "[(1, Materialize), (1, Materialize), (1, Materialize), (1, Materialize),
           (1, Materialize)]"
  have ret: "pcs (run (init 5) ?s1) 0 = Clear_returned"
    by (simp add: exec)
  have stale: "pcs (run (init 5) ?s1) 2 = Get_returned 5"
    by (simp add: exec)
  have fresh: "\<not> materializing (pcs (run (init 5) (?s1 @ ?s2)) 1)"
    by (simp add: exec)
  obtain v where got: "pcs (run (init 5) (?s1 @ ?s2 @ ?s3)) 1 = Get_returned v"
    by (simp add: exec)
  let ?s' = "store_referred 3 nullptr example_runtime"
  have plain: "KONAN_NO_THREADS plain_build"
    by (simp add: plain_build_def)
  have cleared: "WeakReferenceCounterClear plain_build example_runtime 3 = Some (Inr ?s')"
    using plain by (simp add: clear_plain)
  obtain v' where read:
    "Konan_WeakReferenceCounter_get plain_build ?s' 3 =
       Some (Inr (v', ?s'\<lparr>mmCalls := [Return v']\<rparr>))"
    using plain by (simp add: get_plain) (simp add: store_referred_def example_runtime_def)
  note th = monotonic_invalidation[where r = 5 and ?s1.0 = ?s1 and c = 0 and ?s2.0 = ?s2
      and t = 1 and ?s3.0 = ?s3 and v = v and cfg = plain_build and s = example_runtime
      and a = 3 and s' = ?s' and v' = v' and s'' = "?s'\<lparr>mmCalls := [Return v']\<rparr>"]
  from th cleared read have "v' = nullptr"
    by (simp only: simp_thms)
  with read have read0:
    "Konan_WeakReferenceCounter_get plain_build ?s' 3 =
       Some (Inr (nullptr, ?s'\<lparr>mmCalls := [Return nullptr]\<rparr>))"
    by (simp only:)
  from th ret have null: "at_referredOffset (shared (run (init 5) (?s1 @ ?s2))) = nullptr"
    by (simp only: simp_thms)
  from th ret fresh got have "v = nullptr"
    by (simp only: simp_thms)
  with got have "pcs (run (init 5) (?s1 @ ?s2 @ ?s3)) 1 = Get_returned nullptr"
    by (simp only:)
  with ret stale null cleared read0 show ?thesis
    by (simp only: simp_thms)
qed

section \<open>Properties of the acquisition machine\<close>

lemma arun_Nil [simp]: "arun cfg mk m [] = m"
  by (simp add: arun_def)

lemma arun_snoc: "arun cfg mk m (sched @ [e]) = astep cfg mk (arun cfg mk m sched) e"
  by (simp add: arun_def)

lemma arun_append: "arun cfg mk m (s1 @ s2) = arun cfg mk (arun cfg mk m s1) s2"
  by (simp add: arun_def)

lemmas acq_exec =
  astep_def agoto_def cache_def makeWeakReferenceCounter_def ObjHolder_def RETURN_OBJ_def
  UpdateRefIfNull_counter_def Let_def

lemma cache_stable_step:
  "cache m r \<noteq> nullptr \<Longrightarrow> cache (astep cfg mk m e) r = cache m r"
  by (cases e; cases "apcs m (fst e)") (auto simp: acq_exec split: prod.splits)

lemma cache_stable_run:
  "cache m r \<noteq> nullptr \<Longrightarrow> cache (arun cfg mk m sched) r = cache m r"
  by (induction sched rule: rev_induct) (simp_all add: arun_snoc cache_stable_step)

lemma cache_inv_init:
  "\<not> (KONAN_OBJC_INTEROP cfg \<and> isObjCObjectWrapper h r) \<Longrightarrow> cache_inv cfg r (ainit h)"
  by (simp add: cache_inv_def ainit_def)

lemma cache_inv_step:
  assumes "cache_inv cfg r m"
  shows "cache_inv cfg r (astep cfg mk m e)"
proof (cases e)
  case (Pair t arg)
  from assms have ok: "\<And>u. alocal_ok r (cache m r) (apcs m u)"
    and native: "\<not> (KONAN_OBJC_INTEROP cfg \<and> isObjCObjectWrapper (heap m) r)"
    by (simp_all add: cache_inv_def)
  have keep: "alocal_ok r c' (apcs m u)"
    if "cache m r = nullptr \<or> c' = cache m r" "c' \<noteq> nullptr \<or> c' = cache m r" for u c'
    using ok[of u] that by (cases "apcs m u") auto
  show ?thesis
    using ok[of t] native keep
    by (cases "apcs m t") (auto simp: Pair cache_inv_def acq_exec split: prod.splits)
qed

lemma cache_inv_run:
  "cache_inv cfg r m \<Longrightarrow> cache_inv cfg r (arun cfg mk m sched)"
  by (induction sched rule: rev_induct) (simp_all add: arun_snoc cache_inv_step)

lemma returned_is_cache:
  assumes "cache_inv cfg r m" and "apcs m t = Acq_returned r v"
  shows "v = cache m r" and "v \<noteq> nullptr"
proof -
  from assms(1) have "alocal_ok r (cache m r) (apcs m t)" by (simp add: cache_inv_def)
  with assms(2) show "v = cache m r" and "v \<noteq> nullptr" by simp_all
qed

lemma getWeakReferenceImpl_native:
  assumes "\<not> (KONAN_OBJC_INTEROP cfg \<and> isObjCObjectWrapper s r)"
  shows "Konan_getWeakReferenceImpl cfg mk s r =
    (if meta_counter (metaObject s r) = nullptr then
       (Suc (heapNext s),
        s\<lparr>heapNext := Suc (heapNext s),
          counterMemory := (counterMemory s)
            (Suc (heapNext s) := \<lparr>at_referredOffset = r, at_lockOffset = 0\<rparr>),
          metaObject := (metaObject s)(r := (metaObject s r)\<lparr>meta_counter := Suc (heapNext s)\<rparr>),
          mmCalls := mmCalls s @ [Hold (Suc (heapNext s)), Return (Suc (heapNext s))]\<rparr>)
     else (meta_counter (metaObject s r),
           s\<lparr>mmCalls := mmCalls s @ [Return (meta_counter (metaObject s r))]\<rparr>))"
  using assms
  by (auto simp: Konan_getWeakReferenceImpl_def makeWeakReferenceCounter_def ObjHolder_def
      RETURN_OBJ_def UpdateRefIfNull_counter_def Let_def)

text \<open>
  Claim C2 (one canonical Counter per referent). For a referent that does not take the
  foreign branch, under every schedule of threads calling \<^verbatim>\<open>Konan_getWeakReferenceImpl\<close>:
  once the Cache entry is non-null it never changes again (it is written at most once, by
  the one \<^verbatim>\<open>UpdateRefIfNull\<close> that found it null); a call that has returned has returned the
  content of the Cache entry, which is non-null; and any call for the same referent that has
  returned later has returned the same Counter, whether or not its own candidate was
  installed. For a single call running alone: the result is the Cache entry read after the
  install, it is non-null, and a second call returns the same Counter.
\<close>

theorem canonical_counter:
  assumes "\<not> (KONAN_OBJC_INTEROP cfg \<and> isObjCObjectWrapper h r)"
  shows "(cache (arun cfg mk (ainit h) s1) r \<noteq> nullptr \<longrightarrow>
            cache (arun cfg mk (ainit h) (s1 @ s2)) r = cache (arun cfg mk (ainit h) s1) r) \<and>
         (apcs (arun cfg mk (ainit h) s1) t = Acq_returned r v \<longrightarrow>
            v = cache (arun cfg mk (ainit h) s1) r \<and> v \<noteq> nullptr \<and>
            (apcs (arun cfg mk (ainit h) (s1 @ s2)) u = Acq_returned r w \<longrightarrow> w = v)) \<and>
         fst (Konan_getWeakReferenceImpl cfg mk h r) =
           meta_counter (metaObject (snd (Konan_getWeakReferenceImpl cfg mk h r)) r) \<and>
         fst (Konan_getWeakReferenceImpl cfg mk h r) \<noteq> nullptr \<and>
         fst (Konan_getWeakReferenceImpl cfg mk (snd (Konan_getWeakReferenceImpl cfg mk h r)) r) =
           fst (Konan_getWeakReferenceImpl cfg mk h r)"
proof -
  let ?m1 = "arun cfg mk (ainit h) s1"
  let ?m2 = "arun cfg mk (ainit h) (s1 @ s2)"
  have m2: "?m2 = arun cfg mk ?m1 s2" by (rule arun_append)
  have inv1: "cache_inv cfg r ?m1"
    using assms by (intro cache_inv_run cache_inv_init)
  have inv2: "cache_inv cfg r ?m2"
    using assms by (intro cache_inv_run cache_inv_init)
  have once: "cache ?m2 r = cache ?m1 r" if "cache ?m1 r \<noteq> nullptr"
    unfolding m2 using that by (rule cache_stable_run)
  have first: "v = cache ?m1 r \<and> v \<noteq> nullptr" if "apcs ?m1 t = Acq_returned r v"
    using returned_is_cache[OF inv1 that] by simp
  have same: "w = v" if "apcs ?m1 t = Acq_returned r v" "apcs ?m2 u = Acq_returned r w"
  proof -
    from first[OF that(1)] have "cache ?m1 r = v" "cache ?m1 r \<noteq> nullptr" by simp_all
    with once have "cache ?m2 r = v" by simp
    with returned_is_cache(1)[OF inv2 that(2)] show ?thesis by simp
  qed
  have seq: "fst (Konan_getWeakReferenceImpl cfg mk h r) =
           meta_counter (metaObject (snd (Konan_getWeakReferenceImpl cfg mk h r)) r)"
     "fst (Konan_getWeakReferenceImpl cfg mk h r) \<noteq> nullptr"
    using assms by (simp_all add: getWeakReferenceImpl_native)
  have native': "\<not> (KONAN_OBJC_INTEROP cfg \<and>
      isObjCObjectWrapper (snd (Konan_getWeakReferenceImpl cfg mk h r)) r)"
    using assms by (simp add: getWeakReferenceImpl_native)
  have again: "fst (Konan_getWeakReferenceImpl cfg mk (snd (Konan_getWeakReferenceImpl cfg mk h r)) r) =
           fst (Konan_getWeakReferenceImpl cfg mk h r)"
    using seq unfolding getWeakReferenceImpl_native[OF native']
    by simp
  show ?thesis
  proof (intro conjI impI)
    show "cache ?m2 r = cache ?m1 r" if "cache ?m1 r \<noteq> nullptr"
      using that by (rule once)
    show "v = cache ?m1 r" "v \<noteq> nullptr" if "apcs ?m1 t = Acq_returned r v"
      using first[OF that] by simp_all
    show "w = v" if "apcs ?m1 t = Acq_returned r v" "apcs ?m2 u = Acq_returned r w"
      using that by (rule same)
  qed (rule seq again)+
qed


theorem canonical_counter_witness:
  "apcs (arun locked_build example_makeObjC (ainit example_runtime)
          [(0, 1), (1, 1), (0, 1), (1, 1), (0, 1), (1, 1), (1, 1), (0, 1), (1, 1)]) 0 =
     Acq_read 1 \<and>
   apcs (arun locked_build example_makeObjC (ainit example_runtime)
          [(0, 1), (1, 1), (0, 1), (1, 1), (0, 1), (1, 1), (1, 1), (0, 1), (1, 1)]) 1 =
     Acq_returned 1 12 \<and>
   cache (arun locked_build example_makeObjC (ainit example_runtime)
          [(0, 1), (1, 1), (0, 1), (1, 1), (0, 1), (1, 1), (1, 1), (0, 1), (1, 1)]) 1 = 12 \<and>
   apcs (arun locked_build example_makeObjC (ainit example_runtime)
          ([(0, 1), (1, 1), (0, 1), (1, 1), (0, 1), (1, 1), (1, 1), (0, 1), (1, 1)] @
           [(0, 1)])) 0 = Acq_returned 1 12 \<and>
   heapNext (heap (arun locked_build example_makeObjC (ainit example_runtime)
          ([(0, 1), (1, 1), (0, 1), (1, 1), (0, 1), (1, 1), (1, 1), (0, 1), (1, 1)] @
           [(0, 1)]))) = 12"
proof -
  let ?s1 = "[(0, 1), (1, 1), (0, 1), (1, 1), (0, 1), (1, 1), (1, 1), (0, 1), (1, 1)]"
  let ?s2 = "[(0, 1)]"
  let ?m1 = "arun locked_build example_makeObjC (ainit example_runtime) ?s1"
  let ?m2 = "arun locked_build example_makeObjC (ainit example_runtime) (?s1 @ ?s2)"
  have native: "\<not> (KONAN_OBJC_INTEROP locked_build \<and> isObjCObjectWrapper example_runtime 1)"
    by (simp add: example_runtime_def)
  have loser: "apcs ?m1 0 = Acq_read 1"
    by (simp add: arun_def ainit_def acq_exec example_runtime_def locked_build_def)
  have winner: "apcs ?m1 1 = Acq_returned 1 12"
    by (simp add: arun_def ainit_def acq_exec example_runtime_def locked_build_def)
  obtain w where late: "apcs ?m2 0 = Acq_returned 1 w"
    by (simp add: arun_def ainit_def acq_exec example_runtime_def locked_build_def)
  have two: "heapNext (heap ?m2) = 12"
    by (simp add: arun_def ainit_def acq_exec example_runtime_def locked_build_def)
  note th = canonical_counter[OF native, where mk = example_makeObjC and ?s1.0 = ?s1
      and ?s2.0 = ?s2 and t = 1 and v = 12 and u = 0 and w = w]
  from th winner have entry: "12 = cache ?m1 1"
    by (simp only: simp_thms)
  from th winner late have "w = 12"
    by (simp only: simp_thms)
  with late have "apcs ?m2 0 = Acq_returned 1 12"
    by (simp only:)
  with loser winner entry[symmetric] two show ?thesis
    by (simp only: simp_thms)
qed

end
